theory Spec2Isabelle
  imports
    Main
    "HOL-Library.Char_ord"
    "HOL-Library.List_Lexorder"
    "HOL-Library.AList"
    "HOL-Library.Sublist"
begin

section \<open>go-switcher: a shallow embedding of main.go\<close>

text \<open>
  The program is a command-line tool with four operations (list, download, clean, switch)
  over a directory tree \<open><root>/<version>/<architecture>/\<close> and the file
  \<open>$HOME/.profile\<close>. Every function of main.go that the properties below talk about is
  translated here as a HOL function over an explicit \<open>world\<close>: the file system, the
  \<open>HOME\<close> variable, the two output streams and the list of external commands that were run.
  A Go \<open>error\<close> result is an \<open>error option\<close> (\<open>None\<close> is \<open>nil\<close>), returned next to
  the world the call leaves behind, so that what a failing call has already done stays
  visible.
\<close>

subsection \<open>Strings: the functions of package strings and strconv that main.go calls\<close>

text \<open>
  \<open>strings.Split(s, sep)\<close> for a separator of one byte, which is the only way the program
  calls it (\<open>"\n"\<close>); the same function splits paths at \<open>/\<close> in the file-system model.
  The result is never empty: \<open>Split "" sep\<close> is the list holding the empty string.
\<close>

fun Split :: "string \<Rightarrow> char \<Rightarrow> string list" where
  "Split [] sep = [[]]"
| "Split (c # cs) sep =
     (if c = sep then [] # Split cs sep
      else (case Split cs sep of [] \<Rightarrow> [[c]] | w # ws \<Rightarrow> (c # w) # ws))"

text \<open>\<open>strings.Join(elems, sep)\<close>.\<close>

fun Join :: "string list \<Rightarrow> string \<Rightarrow> string" where
  "Join [] sep = []"
| "Join [x] sep = x"
| "Join (x # y # ys) sep = x @ sep @ Join (y # ys) sep"

text \<open>\<open>strings.HasPrefix(s, prefix)\<close> and \<open>strings.Contains(s, substr)\<close>.\<close>

fun HasPrefix :: "string \<Rightarrow> string \<Rightarrow> bool" where
  "HasPrefix s [] = True"
| "HasPrefix [] (p # ps) = False"
| "HasPrefix (c # cs) (p # ps) = (c = p \<and> HasPrefix cs ps)"

fun Contains :: "string \<Rightarrow> string \<Rightarrow> bool" where
  "Contains [] substr = (substr = [])"
| "Contains (c # cs) substr = (HasPrefix (c # cs) substr \<or> Contains cs substr)"

text \<open>
  \<open>strconv.Atoi\<close>: an optional sign, then one or more decimal digits, and a value that
  fits Go's 64-bit \<open>int\<close>. Anything else is an error (\<open>None\<close>), which also covers a value
  out of range: the caller only tests \<open>err == nil\<close>.
\<close>

definition isDigit :: "char \<Rightarrow> bool" where
  "isDigit c = (CHR ''0'' \<le> c \<and> c \<le> CHR ''9'')"

fun parseDigits :: "string \<Rightarrow> int \<Rightarrow> int option" where
  "parseDigits [] n = Some n"
| "parseDigits (c # cs) n =
     (if isDigit c then parseDigits cs (n * 10 + (of_char c - 48)) else None)"

definition Atoi :: "string \<Rightarrow> int option" where
  "Atoi s =
     (case s of
        [] \<Rightarrow> None
      | c # cs \<Rightarrow>
          (let neg = (c = CHR ''-'');
               ds = (if c = CHR ''-'' \<or> c = CHR ''+'' then cs else s)
           in if ds = [] then None
              else (case parseDigits ds 0 of
                      None \<Rightarrow> None
                    | Some n \<Rightarrow>
                        (let v = (if neg then - n else n)
                         in if - (2 ^ 63) \<le> v \<and> v < 2 ^ 63 then Some v else None))))"

text \<open>The verb \<open>%d\<close> of \<open>fmt.Printf\<close> on a non-negative number.\<close>

function decimal :: "nat \<Rightarrow> string" where
  "decimal n =
     (if n < 10 then [char_of (48 + n)]
      else decimal (n div 10) @ [char_of (48 + n mod 10)])"
  by pat_completeness auto
termination
  by (relation "measure (\<lambda>n. n)") auto

declare decimal.simps [simp del]

subsection \<open>The file system\<close>

text \<open>
  A tree without links. A directory holds its entries as an association list from names
  to nodes, in no particular order, and one permission bit: whether it may be listed.
  Files are always readable and writable, and directories always searchable and writable;
  these are the assumptions of the model. \<open>errno\<close> names the failures the system calls
  report.
\<close>

datatype errno = ENOENT | ENOTDIR | EISDIR | EACCES | ENOTEMPTY | EBUSY

datatype node = File string | Dir bool "(string \<times> node) list"

fun is_dir :: "node \<Rightarrow> bool" where
  "is_dir (Dir r es) = True"
| "is_dir (File c) = False"

text \<open>
  A path is split at \<open>/\<close>; empty components and \<open>.\<close> are skipped and \<open>..\<close> steps back to
  the parent (lexically; the root is its own parent). Every path is taken from the root
  of the tree, as all paths of the program are absolute. The first argument of
  \<open>norm\<close> is the stack of components walked so far, innermost first.
\<close>

fun norm :: "string list \<Rightarrow> string list \<Rightarrow> string list" where
  "norm stk [] = rev stk"
| "norm stk (c # cs) =
     (if c = [] \<or> c = ''.'' then norm stk cs
      else if c = ''..'' then norm (tl stk) cs
      else norm (c # stk) cs)"

definition components :: "string \<Rightarrow> string list" where
  "components path = norm [] (Split path CHR ''/'')"

fun lookup :: "node \<Rightarrow> string list \<Rightarrow> errno + node" where
  "lookup n [] = Inr n"
| "lookup (File c) (x # xs) = Inl ENOTDIR"
| "lookup (Dir r es) (x # xs) =
     (case map_of es x of None \<Rightarrow> Inl ENOENT | Some m \<Rightarrow> lookup m xs)"

text \<open>\<open>os.Stat\<close>; \<open>os.IsNotExist(err)\<close> is the test \<open>= Inl ENOENT\<close>.\<close>

definition Stat :: "node \<Rightarrow> string \<Rightarrow> errno + node" where
  "Stat t path = lookup t (components path)"

text \<open>
  \<open>os.ReadDir\<close> returns the entries of a directory sorted by file name (bytewise). An
  entry gives its name and whether it is a directory.
\<close>

datatype DirEntry = DirEntry (Name: string) (IsDir: bool)

definition ReadDir :: "node \<Rightarrow> string \<Rightarrow> errno + DirEntry list" where
  "ReadDir t path =
     (case lookup t (components path) of
        Inl e \<Rightarrow> Inl e
      | Inr (File c) \<Rightarrow> Inl ENOTDIR
      | Inr (Dir r es) \<Rightarrow>
          (if r then Inr (map (\<lambda>e. DirEntry (fst e) (is_dir (snd e))) (sort_key fst es))
           else Inl EACCES))"

definition ReadFile :: "node \<Rightarrow> string \<Rightarrow> errno + string" where
  "ReadFile t path =
     (case lookup t (components path) of
        Inl e \<Rightarrow> Inl e
      | Inr (File c) \<Rightarrow> Inr c
      | Inr (Dir r es) \<Rightarrow> Inl EISDIR)"

text \<open>
  \<open>os.MkdirAll\<close>: creates every missing directory on the path; fails, changing nothing,
  when a component of the path is a file.
\<close>

fun mkdirAll :: "node \<Rightarrow> string list \<Rightarrow> errno + node" where
  "mkdirAll (File c) xs = Inl ENOTDIR"
| "mkdirAll (Dir r es) [] = Inr (Dir r es)"
| "mkdirAll (Dir r es) (x # xs) =
     (case mkdirAll (case map_of es x of None \<Rightarrow> Dir True [] | Some m \<Rightarrow> m) xs of
        Inl e \<Rightarrow> Inl e
      | Inr m' \<Rightarrow> Inr (Dir r (AList.update x m' es)))"

definition MkdirAll :: "node \<Rightarrow> string \<Rightarrow> errno + node" where
  "MkdirAll t path = mkdirAll t (components path)"

text \<open>
  \<open>os.WriteFile\<close>: replaces the content of an existing file or creates the file in an
  existing directory.
\<close>

fun writeFile :: "node \<Rightarrow> string list \<Rightarrow> string \<Rightarrow> errno + node" where
  "writeFile (File c) [] d = Inr (File d)"
| "writeFile (Dir r es) [] d = Inl EISDIR"
| "writeFile (File c) (x # xs) d = Inl ENOTDIR"
| "writeFile (Dir r es) (x # xs) d =
     (case map_of es x of
        None \<Rightarrow> (if xs = [] then Inr (Dir r (AList.update x (File d) es)) else Inl ENOENT)
      | Some m \<Rightarrow>
          (case writeFile m xs d of
             Inl e \<Rightarrow> Inl e
           | Inr m' \<Rightarrow> Inr (Dir r (AList.update x m' es))))"

definition WriteFile :: "node \<Rightarrow> string \<Rightarrow> string \<Rightarrow> errno + node" where
  "WriteFile t path d = writeFile t (components path) d"

text \<open>
  \<open>os.RemoveAll\<close> removes what it can and reports the first failure. \<open>residue\<close> is what
  is left of a node: nothing of a file or an empty directory; all of a non-empty directory
  that cannot be listed; otherwise the directory with the residues of its entries, when
  there are any.
\<close>

fun residue :: "node \<Rightarrow> node option"
  and residues :: "(string \<times> node) list \<Rightarrow> (string \<times> node) list" where
  "residue (File c) = None"
| "residue (Dir r es) =
     (if es = [] then None
      else if \<not> r then Some (Dir r es)
      else (case residues es of [] \<Rightarrow> None | e' # es' \<Rightarrow> Some (Dir r (e' # es'))))"
| "residues [] = []"
| "residues (e # es) =
     (case residue (snd e) of
        None \<Rightarrow> residues es
      | Some m' \<Rightarrow> (fst e, m') # residues es)"

fun removeTree :: "node \<Rightarrow> string list \<Rightarrow> errno option \<times> node" where
  "removeTree n [] = (Some EBUSY, n)"
| "removeTree (File c) (x # xs) = (Some ENOTDIR, File c)"
| "removeTree (Dir r es) [x] =
     (case map_of es x of
        None \<Rightarrow> (None, Dir r es)
      | Some m \<Rightarrow>
          (case residue m of
             None \<Rightarrow> (None, Dir r (AList.delete x es))
           | Some m' \<Rightarrow> (Some EACCES, Dir r (AList.update x m' es))))"
| "removeTree (Dir r es) (x # y # ys) =
     (case map_of es x of
        None \<Rightarrow> (None, Dir r es)
      | Some m \<Rightarrow>
          (case removeTree m (y # ys) of
             (e, m') \<Rightarrow> (e, Dir r (AList.update x m' es))))"

definition RemoveAll :: "node \<Rightarrow> string \<Rightarrow> errno option \<times> node" where
  "RemoveAll t path = removeTree t (components path)"



subsection \<open>The world, the configuration and the output streams\<close>

text \<open>
  \<open>fs\<close> is the file system, \<open>HOME\<close> the environment variable that \<open>os.UserHomeDir\<close>
  reads, \<open>stdout\<close> the lines written by package \<open>fmt\<close>, \<open>stderr\<close> the lines written by
  package \<open>log\<close> (without their time stamp), \<open>procs\<close> the external commands started by
  \<open>sh.Run\<close>, oldest first, and \<open>annotations\<close> the map that \<open>listGoVersions\<close> stores in
  the root command.
\<close>

record world =
  fs :: node
  HOME :: string
  stdout :: "string list"
  stderr :: "string list"
  procs :: "(string \<times> string list) list"
  annotations :: "(string \<times> string) list"

record Config =
  GoDownloadDir :: string

definition goDownloadDir :: string where
  "goDownloadDir = ''/usr/local/bin/go-switcher''"

definition NewConfig :: Config where
  "NewConfig = \<lparr>GoDownloadDir = goDownloadDir\<rparr>"

definition Println :: "string \<Rightarrow> world \<Rightarrow> world" where
  "Println s w = w\<lparr>stdout := stdout w @ [s]\<rparr>"

definition log_Printf :: "string \<Rightarrow> world \<Rightarrow> world" where
  "log_Printf s w = w\<lparr>stderr := stderr w @ [s]\<rparr>"

fun strerror :: "errno \<Rightarrow> string" where
  "strerror ENOENT = ''no such file or directory''"
| "strerror ENOTDIR = ''not a directory''"
| "strerror EISDIR = ''is a directory''"
| "strerror EACCES = ''permission denied''"
| "strerror ENOTEMPTY = ''directory not empty''"
| "strerror EBUSY = ''device or resource busy''"

text \<open>The text of an \<open>*fs.PathError\<close> under the verb \<open>%v\<close>.\<close>

definition PathError :: "string \<Rightarrow> string \<Rightarrow> errno \<Rightarrow> string" where
  "PathError op path e = op @ '' '' @ path @ '': '' @ strerror e"

definition UserHomeDir :: "world \<Rightarrow> string option" where
  "UserHomeDir w = (if HOME w = [] then None else Some (HOME w))"

text \<open>
  The errors the four operations return, one constructor for each \<open>fmt.Errorf\<close> of
  main.go, with the error it wraps.
\<close>

datatype error =
    ReadDirectory errno
  | NoVersionsFound
  | InvalidNumber nat
  | NotInstalled string string
  | CreateWorkspaceDirectory errno
  | GetHomeDirectory
  | ReadProfile errno
  | WriteProfile errno
  | CreateDirectory errno
  | DownloadArchive
  | ExtractArchive

text \<open>
  The three slices \<open>versions\<close>, \<open>architectures\<close> and \<open>paths\<close> that both scans fill.
\<close>

type_synonym scan = "string list \<times> string list \<times> string list"

subsection \<open>listGoVersions\<close>

text \<open>The inner loop, main.go lines 162-168: one version directory's entries.\<close>

fun list_archLoop :: "Config \<Rightarrow> DirEntry \<Rightarrow> DirEntry list \<Rightarrow> scan \<Rightarrow> scan" where
  "list_archLoop config fi [] (versions, architectures, paths) =
     (versions, architectures, paths)"
| "list_archLoop config fi (archFi # archDirs) (versions, architectures, paths) =
     (if IsDir archFi
      then list_archLoop config fi archDirs
             (versions @ [Name fi],
              architectures @ [Name archFi],
              paths @ [GoDownloadDir config @ ''/'' @ Name fi @ ''/'' @ Name archFi])
      else list_archLoop config fi archDirs (versions, architectures, paths))"

text \<open>The outer loop, lines 150-169; a directory that cannot be read is reported and skipped.\<close>

fun list_versionLoop :: "Config \<Rightarrow> DirEntry list \<Rightarrow> world \<Rightarrow> scan \<Rightarrow> scan \<times> world" where
  "list_versionLoop config [] w acc = (acc, w)"
| "list_versionLoop config (fi # dir) w acc =
     (if \<not> IsDir fi then list_versionLoop config dir w acc
      else
        (let versionDir = GoDownloadDir config @ ''/'' @ Name fi
         in case ReadDir (fs w) versionDir of
              Inl err \<Rightarrow>
                list_versionLoop config dir
                  (Println (''Error reading version directory '' @ Name fi @ '': ''
                            @ PathError ''open'' versionDir err) w)
                  acc
            | Inr archDirs \<Rightarrow>
                list_versionLoop config dir w (list_archLoop config fi archDirs acc)))"

text \<open>
  Lines 132-169: the header, the test that the root exists, the listing of the root and
  the scan. \<open>Inl r\<close> is an early return with result \<open>r\<close>.
\<close>

definition listScan :: "Config \<Rightarrow> world \<Rightarrow> (error option + scan) \<times> world" where
  "listScan config w =
     (let w0 = Println (''= Go versions from '' @ GoDownloadDir config @ '' ='') w
      in if Stat (fs w0) (GoDownloadDir config) = Inl ENOENT
         then (Inl None, Println ''No Go versions found. Directory does not exist.'' w0)
         else
           (case ReadDir (fs w0) (GoDownloadDir config) of
              Inl err \<Rightarrow> (Inl (Some (ReadDirectory err)), w0)
            | Inr dir \<Rightarrow>
                (case list_versionLoop config dir w0 ([], [], []) of
                   (found, w1) \<Rightarrow> (Inr found, w1))))"

text \<open>The line \<open>"%d. %s (%s)\n"\<close> of line 177.\<close>

definition list_line :: "nat \<Rightarrow> string \<Rightarrow> string \<Rightarrow> string" where
  "list_line n version arch = decimal n @ ''. '' @ version @ '' ('' @ arch @ '')''"

definition listGoVersions :: "Config \<Rightarrow> world \<Rightarrow> error option \<times> world" where
  "listGoVersions config w =
     (case listScan config w of
        (Inl r, w1) \<Rightarrow> (r, w1)
      | (Inr (versions, architectures, paths), w1) \<Rightarrow>
          (if length versions = 0 then (None, Println ''No Go versions found'' w1)
           else
             (let w2 = fold (\<lambda>i. Println (list_line (i + 1) (versions ! i) (architectures ! i)))
                         [0..<length versions] w1
              in (None,
                  w2\<lparr>annotations :=
                       [(''versions'', Join versions '',''),
                        (''architectures'', Join architectures '',''),
                        (''paths'', Join paths '','')]\<rparr>))))"

subsection \<open>downloadGoVersion\<close>




subsection \<open>cleanGoVersions\<close>

text \<open>The loop of lines 237-247 over the entries read before the first removal.\<close>

fun clean_loop :: "Config \<Rightarrow> DirEntry list \<Rightarrow> world \<Rightarrow> world" where
  "clean_loop config [] w = w"
| "clean_loop config (fi # dir) w =
     (if \<not> IsDir fi then clean_loop config dir w
      else
        (let versionDir = GoDownloadDir config @ ''/'' @ Name fi;
             w1 = Println (''Removing version: '' @ Name fi) w
         in case RemoveAll (fs w1) versionDir of
              (Some err, t) \<Rightarrow>
                clean_loop config dir
                  (log_Printf (''Warning: failed to remove '' @ versionDir @ '': ''
                               @ PathError ''unlinkat'' versionDir err)
                     (w1\<lparr>fs := t\<rparr>))
            | (None, t) \<Rightarrow> clean_loop config dir (w1\<lparr>fs := t\<rparr>)))"

definition cleanGoVersions :: "Config \<Rightarrow> world \<Rightarrow> error option \<times> world" where
  "cleanGoVersions config w =
     (let w0 = Println (''= Removing all Go versions from '' @ GoDownloadDir config @ '' ='') w
      in if Stat (fs w0) (GoDownloadDir config) = Inl ENOENT
         then (None, Println ''No Go versions found. Directory does not exist.'' w0)
         else
           (case ReadDir (fs w0) (GoDownloadDir config) of
              Inl err \<Rightarrow> (Some (ReadDirectory err), w0)
            | Inr dir \<Rightarrow>
                (if length dir = 0 then (None, Println ''No Go versions found to clean'' w0)
                 else (None, Println ''= Cleanup completed ='' (clean_loop config dir w0)))))"

subsection \<open>switchGoVersion\<close>

text \<open>The scan of lines 272-291, written out a second time in the source.\<close>

fun switch_archLoop :: "Config \<Rightarrow> DirEntry \<Rightarrow> DirEntry list \<Rightarrow> scan \<Rightarrow> scan" where
  "switch_archLoop config fi [] (versions, architectures, paths) =
     (versions, architectures, paths)"
| "switch_archLoop config fi (archFi # archDirs) (versions, architectures, paths) =
     (if IsDir archFi
      then switch_archLoop config fi archDirs
             (versions @ [Name fi],
              architectures @ [Name archFi],
              paths @ [GoDownloadDir config @ ''/'' @ Name fi @ ''/'' @ Name archFi])
      else switch_archLoop config fi archDirs (versions, architectures, paths))"

fun switch_versionLoop :: "Config \<Rightarrow> DirEntry list \<Rightarrow> world \<Rightarrow> scan \<Rightarrow> scan \<times> world" where
  "switch_versionLoop config [] w acc = (acc, w)"
| "switch_versionLoop config (fi # dir) w acc =
     (if \<not> IsDir fi then switch_versionLoop config dir w acc
      else
        (let versionDir = GoDownloadDir config @ ''/'' @ Name fi
         in case ReadDir (fs w) versionDir of
              Inl err \<Rightarrow>
                switch_versionLoop config dir
                  (log_Printf (''Error reading version directory '' @ Name fi @ '': ''
                               @ PathError ''open'' versionDir err) w)
                  acc
            | Inr archDirs \<Rightarrow>
                switch_versionLoop config dir w (switch_archLoop config fi archDirs acc)))"

text \<open>Lines 261-291: the listing of the root, with no test that it exists, and the scan.\<close>

definition switchScan :: "Config \<Rightarrow> world \<Rightarrow> (error + scan) \<times> world" where
  "switchScan config w =
     (case ReadDir (fs w) (GoDownloadDir config) of
        Inl err \<Rightarrow> (Inl (ReadDirectory err), w)
      | Inr dir \<Rightarrow>
          (case switch_versionLoop config dir w ([], [], []) of
             (found, w1) \<Rightarrow> (Inr found, w1)))"

text \<open>
  Lines 261-309: the scan, the test that it found something, and the choice of
  \<open>version\<close>, \<open>arch\<close> and \<open>versionDir\<close> from the argument: by number when
  \<open>strconv.Atoi\<close> accepts it, by name and the flag \<open>--arch\<close> otherwise.
\<close>

definition switchTarget ::
  "string \<Rightarrow> Config \<Rightarrow> string \<Rightarrow> world \<Rightarrow> (error + string \<times> string \<times> string) \<times> world" where
  "switchTarget archFlag config versionOrNumber w =
     (case switchScan config w of
        (Inl err, w1) \<Rightarrow> (Inl err, w1)
      | (Inr (versions, architectures, paths), w1) \<Rightarrow>
          (if length versions = 0 then (Inl NoVersionsFound, w1)
           else
             (case Atoi versionOrNumber of
                Some num \<Rightarrow>
                  (if num < 1 \<or> num > int (length versions)
                   then (Inl (InvalidNumber (length versions)), w1)
                   else (Inr (versions ! nat (num - 1),
                              architectures ! nat (num - 1),
                              paths ! nat (num - 1)), w1))
              | None \<Rightarrow>
                  (Inr (versionOrNumber, archFlag,
                        GoDownloadDir config @ ''/'' @ versionOrNumber @ ''/'' @ archFlag),
                   w1))))"

text \<open>The loop of lines 339-345 that drops the lines of an earlier switch.\<close>

fun profile_loop :: "string list \<Rightarrow> string list \<Rightarrow> string list" where
  "profile_loop [] newProfileLines = newProfileLines"
| "profile_loop (line # profileLines) newProfileLines =
     (if \<not> Contains line ''export PATH=$PATH:'' \<and>
         \<not> Contains line ''export GOPATH='' \<and>
         \<not> Contains line ''export GOROOT=''
      then profile_loop profileLines (newProfileLines @ [line])
      else profile_loop profileLines newProfileLines)"

text \<open>Lines 336-353: the text that is written back to the profile.\<close>

definition newProfile :: "string \<Rightarrow> string \<Rightarrow> string \<Rightarrow> string \<Rightarrow> string" where
  "newProfile goBinPath goPath goRoot profileContent =
     (let profileLines = Split profileContent CHR 0x0A;
          l0 = profile_loop profileLines [];
          l1 = l0 @ [[]];
          l2 = l1 @ [''# Go environment variables''];
          l3 = l2 @ [''export PATH=$PATH:'' @ goBinPath];
          l4 = l3 @ [''export GOPATH='' @ goPath];
          l5 = l4 @ [''export GOROOT='' @ goRoot]
      in Join l5 [CHR 0x0A])"

definition switchGoVersion ::
  "string \<Rightarrow> Config \<Rightarrow> string \<Rightarrow> world \<Rightarrow> error option \<times> world" where
  "switchGoVersion archFlag config versionOrNumber w =
     (case switchTarget archFlag config versionOrNumber w of
        (Inl err, w1) \<Rightarrow> (Some err, w1)
      | (Inr (version, arch, versionDir), w1) \<Rightarrow>
          (if Stat (fs w1) versionDir = Inl ENOENT then (Some (NotInstalled version arch), w1)
           else
             (let w2 = Println (''= Switching to Go version '' @ version
                                @ '' for architecture '' @ arch @ '' ='') w1;
                  goBinPath = versionDir @ ''/go/bin'';
                  goPath = versionDir @ ''/workspace'';
                  goRoot = versionDir @ ''/go''
              in case MkdirAll (fs w2) goPath of
                   Inl err \<Rightarrow> (Some (CreateWorkspaceDirectory err), w2)
                 | Inr t3 \<Rightarrow>
                     (let w3 = w2\<lparr>fs := t3\<rparr>
                      in case UserHomeDir w3 of
                           None \<Rightarrow> (Some GetHomeDirectory, w3)
                         | Some homeDir \<Rightarrow>
                             (let profilePath = homeDir @ ''/.profile''
                              in case ReadFile (fs w3) profilePath of
                                   Inl err \<Rightarrow> (Some (ReadProfile err), w3)
                                 | Inr profileContent \<Rightarrow>
                                     (case WriteFile (fs w3) profilePath
                                             (newProfile goBinPath goPath goRoot profileContent) of
                                        Inl err \<Rightarrow> (Some (WriteProfile err), w3)
                                      | Inr t4 \<Rightarrow>
                                          (None,
                                           fold Println
                                             [''= Successfully switched to Go version ''
                                                @ version @ '' ='',
                                              ''PATH now includes: '' @ goBinPath,
                                              ''GOPATH is set to: '' @ goPath,
                                              ''GOROOT is set to: '' @ goRoot,
                                              ''Changes have been written to '' @ profilePath,
                                              ''Please log out and log back in for changes to take effect'']
                                             (w3\<lparr>fs := t4\<rparr>))))))))"

subsection \<open>The profile rewrite, as the specification words it\<close>

text \<open>
  \<open>rewriteProfile\<close> is the rewrite that \<open>switchGoVersion\<close> performs for a version
  directory: \<open>newProfile\<close> with the three paths of lines 317-319.
\<close>

definition rewriteProfile :: "string \<Rightarrow> string \<Rightarrow> string" where
  "rewriteProfile versionDir profileContent =
     newProfile (versionDir @ ''/go/bin'') (versionDir @ ''/workspace'') (versionDir @ ''/go'')
       profileContent"

text \<open>
  The specification's description of the rewrite, to be compared with the code: a line is
  dropped when it contains one of the three fixed substrings; the lines kept are followed
  by a blank line, a comment line and the three export lines of the version directory.
\<close>

definition is_export_line :: "string \<Rightarrow> bool" where
  "is_export_line l =
     (Contains l ''export PATH=$PATH:'' \<or>
      Contains l ''export GOPATH='' \<or>
      Contains l ''export GOROOT='')"

definition export_triple :: "string \<Rightarrow> string list" where
  "export_triple versionDir =
     [''export PATH=$PATH:'' @ versionDir @ ''/go/bin'',
      ''export GOPATH='' @ versionDir @ ''/workspace'',
      ''export GOROOT='' @ versionDir @ ''/go'']"

definition spec_rewrite :: "string \<Rightarrow> string \<Rightarrow> string" where
  "spec_rewrite versionDir content =
     Join (filter (\<lambda>l. \<not> is_export_line l) (Split content CHR 0x0A)
           @ [[], ''# Go environment variables'']
           @ export_triple versionDir)
       [CHR 0x0A]"

text \<open>The lines of a profile that a rewrite keeps, and its export lines.\<close>

definition kept_lines :: "string \<Rightarrow> string list" where
  "kept_lines content = filter (\<lambda>l. \<not> is_export_line l) (Split content CHR 0x0A)"

definition exports_of :: "string \<Rightarrow> string list" where
  "exports_of content = filter is_export_line (Split content CHR 0x0A)"

subsection \<open>Well-formed names, aligned scans and sample worlds\<close>

text \<open>
  The names a directory of a real file system can hold: not empty, not \<open>.\<close> or \<open>..\<close>,
  and without a slash.
\<close>

definition valid_name :: "string \<Rightarrow> bool" where
  "valid_name n = (n \<noteq> [] \<and> n \<noteq> ''.'' \<and> n \<noteq> ''..'' \<and> CHR ''/'' \<notin> set n)"

text \<open>
  The three slices of a scan belong together: equally long, and each path made of the
  root, the version and the architecture at the same index.
\<close>

fun aligned :: "Config \<Rightarrow> scan \<Rightarrow> bool" where
  "aligned config (versions, architectures, paths) =
     (length architectures = length versions \<and>
      paths = map2 (\<lambda>v a. GoDownloadDir config @ ''/'' @ v @ ''/'' @ a) versions architectures)"

text \<open>
  A sample world: two versions, one of them for two architectures, a stray file in the
  root, and a profile that already sets \<open>GOROOT\<close>.
\<close>

definition demo_store :: node where
  "demo_store =
     Dir True
       [(''1.23.0'', Dir True [(''linux-amd64'', Dir True [(''go'', Dir True [])])]),
        (''notes.txt'', File ''keep''),
        (''1.22.0'', Dir True [(''linux-amd64'', Dir True []), (''darwin-amd64'', Dir True [])])]"

definition demo_profile :: string where
  "demo_profile = ''# profile'' @ [CHR 0x0A] @ ''export GOROOT=/opt/go'' @ [CHR 0x0A] @ ''alias l=ls''"

definition in_root :: "node \<Rightarrow> node list \<Rightarrow> node" where
  "in_root store homes =
     Dir True
       ([(''usr'', Dir True [(''local'', Dir True [(''bin'', Dir True [(''go-switcher'', store)])])])]
        @ map (\<lambda>h. (''home'', h)) homes)"

definition demo_fs :: node where
  "demo_fs = in_root demo_store [Dir True [(''u'', Dir True [(''.profile'', File demo_profile)])]]"

definition demo_world :: world where
  "demo_world =
     \<lparr>fs = demo_fs, HOME = ''/home/u'', stdout = [], stderr = [], procs = [], annotations = []\<rparr>"

text \<open>
  Three more worlds: the root exists and is empty; the root does not exist; the versions
  are installed but the home directory has no profile.
\<close>

definition empty_world :: world where
  "empty_world =
     \<lparr>fs = in_root (Dir True []) [], HOME = ''/home/u'', stdout = [], stderr = [], procs = [],
      annotations = []\<rparr>"

definition rootless_world :: world where
  "rootless_world =
     \<lparr>fs = Dir True [(''usr'', Dir True [(''local'', Dir True [(''bin'', Dir True [])])])],
      HOME = ''/home/u'', stdout = [], stderr = [], procs = [], annotations = []\<rparr>"

definition noprofile_world :: world where
  "noprofile_world =
     \<lparr>fs = in_root demo_store [Dir True [(''u'', Dir True [])]],
      HOME = ''/home/u'', stdout = [], stderr = [], procs = [], annotations = []\<rparr>"






section \<open>Properties\<close>

subsection \<open>Splitting and joining lines\<close>

lemma Split_no_sep: "l \<in> set (Split s c) \<Longrightarrow> c \<notin> set l"
  by (induction s arbitrary: l) (auto split: list.splits if_splits)

lemma Split_append_line: "c \<notin> set l \<Longrightarrow> Split (l @ c # s) c = l # Split s c"
  by (induction l) (auto split: list.splits)

lemma Split_single: "c \<notin> set l \<Longrightarrow> Split l c = [l]"
  by (induction l) (auto split: list.splits)

lemma Split_Join:
  "ls \<noteq> [] \<Longrightarrow> \<forall>l\<in>set ls. c \<notin> set l \<Longrightarrow> Split (Join ls [c]) c = ls"
proof (induction ls "[c]" rule: Join.induct)
  case 1
  then show ?case by simp
next
  case (2 x)
  then show ?case by (simp add: Split_single)
next
  case (3 x y ys)
  then show ?case by (simp add: Split_append_line)
qed

lemma HasPrefix_append: "HasPrefix (p @ x) p"
  by (induction p) simp_all

lemma Contains_append: "Contains (p @ x) p"
  by (cases "p @ x") (simp_all add: HasPrefix_append del: HasPrefix.simps, metis HasPrefix_append)

subsection \<open>The profile rewrite\<close>

lemma profile_loop_filter:
  "profile_loop ls acc = acc @ filter (\<lambda>l. \<not> is_export_line l) ls"
  by (induction ls arbitrary: acc) (simp_all add: is_export_line_def)

lemma rewriteProfile_spec: "rewriteProfile versionDir content = spec_rewrite versionDir content"
  by (simp add: rewriteProfile_def newProfile_def spec_rewrite_def export_triple_def
      profile_loop_filter Let_def)

lemma is_export_line_prefixed:
  "is_export_line (''export PATH=$PATH:'' @ x)"
  "is_export_line (''export GOPATH='' @ x)"
  "is_export_line (''export GOROOT='' @ x)"
  unfolding is_export_line_def
  using Contains_append [of "''export PATH=$PATH:''" x]
    Contains_append [of "''export GOPATH=''" x]
    Contains_append [of "''export GOROOT=''" x]
  by blast+

lemma export_triple_is_export: "l \<in> set (export_triple d) \<Longrightarrow> is_export_line l"
  unfolding export_triple_def
  by (auto simp only: list.set insert_iff empty_iff is_export_line_prefixed)

lemma header_not_export:
  "\<not> is_export_line []" "\<not> is_export_line ''# Go environment variables''"
  by (simp_all add: is_export_line_def)

lemma filter_export_triple: "filter is_export_line (export_triple d) = export_triple d"
  by (rule filter_True) (simp add: export_triple_is_export)

lemma filter_not_export_triple: "filter (\<lambda>l. \<not> is_export_line l) (export_triple d) = []"
  by (rule filter_False) (simp add: export_triple_is_export)

lemma export_triple_no_newline:
  "CHR 0x0A \<notin> set d \<Longrightarrow> l \<in> set (export_triple d) \<Longrightarrow> CHR 0x0A \<notin> set l"
  by (auto simp: export_triple_def)

lemma Split_rewrite:
  assumes "CHR 0x0A \<notin> set d"
  shows "Split (rewriteProfile d p) CHR 0x0A =
           kept_lines p @ [[], ''# Go environment variables''] @ export_triple d"
proof -
  have "\<forall>l\<in>set (kept_lines p @ [[], ''# Go environment variables''] @ export_triple d).
          CHR 0x0A \<notin> set l"
    using assms by (auto simp: kept_lines_def dest: Split_no_sep export_triple_no_newline)
  then show ?thesis
    unfolding rewriteProfile_spec spec_rewrite_def kept_lines_def [symmetric]
    by (intro Split_Join) simp_all
qed

lemma kept_lines_rewrite:
  assumes "CHR 0x0A \<notin> set d"
  shows "kept_lines (rewriteProfile d p) = kept_lines p @ [[], ''# Go environment variables'']"
  unfolding kept_lines_def [of "rewriteProfile d p"] Split_rewrite [OF assms]
  by (simp add: filter_not_export_triple header_not_export kept_lines_def)

text \<open>
  C3, as stated for every target version, fails when the path of the version directory
  contains a newline: each export line is then written as two lines, the second rewrite
  drops only the first half of each, and the second halves of the first rewrite's triple
  stay in the profile. The export lines of the result are not the triple of the version.
\<close>

theorem rewrite_twice_newline_counterexample:
  "exports_of (rewriteProfile (''/usr/local/bin/go-switcher/1'' @ [CHR 0x0A] @ ''2/linux-amd64'')
                 (rewriteProfile (''/usr/local/bin/go-switcher/1'' @ [CHR 0x0A] @ ''2/linux-amd64'')
                    ''# profile''))
     \<noteq> export_triple (''/usr/local/bin/go-switcher/1'' @ [CHR 0x0A] @ ''2/linux-amd64'')
   \<and> ''2/linux-amd64/go/bin''
       \<in> set (kept_lines (rewriteProfile
                 (''/usr/local/bin/go-switcher/1'' @ [CHR 0x0A] @ ''2/linux-amd64'')
                 ''# profile''))"
  by code_simp

text \<open>
  C3 (amended): when the path of the version directory contains no newline, rewriting a
  profile twice for that directory leaves exactly one export triple, the one of that
  directory: the export lines of the result are the three lines of the triple, and the
  lines of the result are the lines kept from the original profile, the blank line and
  the comment of the first rewrite, and the block of the second rewrite. Nothing of the
  first rewrite's triple is left.
\<close>

theorem rewrite_twice_one_triple:
  assumes "CHR 0x0A \<notin> set versionDir"
  shows "exports_of (rewriteProfile versionDir (rewriteProfile versionDir content))
           = export_triple versionDir
       \<and> Split (rewriteProfile versionDir (rewriteProfile versionDir content)) CHR 0x0A
           = kept_lines content
             @ [[], ''# Go environment variables'', [], ''# Go environment variables'']
             @ export_triple versionDir"
proof -
  have "filter is_export_line (kept_lines q) = []" for q
    by (simp add: kept_lines_def)
  then show ?thesis
    unfolding exports_of_def Split_rewrite [OF assms] kept_lines_rewrite [OF assms]
    by (simp add: filter_export_triple header_not_export)
qed

theorem rewrite_twice_one_triple_witness:
  "CHR 0x0A \<notin> set ''/usr/local/bin/go-switcher/1.23.0/linux-amd64''
   \<and> exports_of (rewriteProfile ''/usr/local/bin/go-switcher/1.23.0/linux-amd64''
                  (rewriteProfile ''/usr/local/bin/go-switcher/1.23.0/linux-amd64''
                     (''# profile'' @ [CHR 0x0A] @ ''export GOROOT=/opt/go'')))
       = [''export PATH=$PATH:/usr/local/bin/go-switcher/1.23.0/linux-amd64/go/bin'',
          ''export GOPATH=/usr/local/bin/go-switcher/1.23.0/linux-amd64/workspace'',
          ''export GOROOT=/usr/local/bin/go-switcher/1.23.0/linux-amd64/go'']"
  using rewrite_twice_one_triple
    [of "''/usr/local/bin/go-switcher/1.23.0/linux-amd64''"
        "''# profile'' @ [CHR 0x0A] @ ''export GOROOT=/opt/go''"]
  by (simp add: export_triple_def)

subsection \<open>Paths and the file system\<close>

lemma Split_nonempty: "Split s c \<noteq> []"
  by (induction s) (auto split: list.splits)

lemma Split_append_name: "c \<notin> set n \<Longrightarrow> Split (s @ c # n) c = Split s c @ [n]"
  by (induction s) (auto simp: Split_single Split_nonempty split: list.splits)

lemma norm_append_name: "valid_name n \<Longrightarrow> norm stk (cs @ [n]) = norm stk cs @ [n]"
  by (induction cs arbitrary: stk) (auto simp: valid_name_def)

lemma components_append_name:
  "valid_name n \<Longrightarrow> components (p @ ''/'' @ n) = components p @ [n]"
  by (simp add: components_def Split_append_name norm_append_name valid_name_def)

lemma lookup_prefix: "lookup t p = Inr n \<Longrightarrow> prefix q p \<Longrightarrow> \<exists>m. lookup t q = Inr m"
proof (induction t p arbitrary: q rule: lookup.induct)
  case (1 n)
  then show ?case by simp
next
  case (2 c x xs)
  then show ?case by simp
next
  case (3 r es x xs)
  show ?case
  proof (cases q)
    case Nil
    then show ?thesis by simp
  next
    case (Cons y ys)
    with 3 show ?thesis by (auto split: option.splits)
  qed
qed

lemma lookup_fresh: "lookup (Dir True []) q = Inr n \<Longrightarrow> q = [] \<and> n = Dir True []"
  by (cases q) auto

lemma mkdirAll_step:
  assumes "mkdirAll (Dir r es) (x # xs) = Inr t'"
  obtains m' where
    "mkdirAll (case map_of es x of None \<Rightarrow> Dir True [] | Some m \<Rightarrow> m) xs = Inr m'"
    "t' = Dir r (AList.update x m' es)"
  using assms by (auto split: sum.splits)

lemma lookup_update:
  "lookup (Dir r (AList.update x m' es)) (y # ys) =
     (if y = x then lookup m' ys else lookup (Dir r es) (y # ys))"
  by (simp add: update_conv')

lemma mkdirAll_File_iff:
  "mkdirAll t p = Inr t' \<Longrightarrow> (lookup t' q = Inr (File c)) = (lookup t q = Inr (File c))"
proof (induction t p arbitrary: t' q rule: mkdirAll.induct)
  case (1 c xs)
  then show ?case by simp
next
  case (2 r es)
  then show ?case by simp
next
  case (3 r es x xs)
  let ?m0 = "case map_of es x of None \<Rightarrow> Dir True [] | Some m \<Rightarrow> m"
  from "3.prems" obtain m' where m': "mkdirAll ?m0 xs = Inr m'"
    and t': "t' = Dir r (AList.update x m' es)"
    by (rule mkdirAll_step)
  show ?case
  proof (cases q)
    case Nil
    then show ?thesis by (simp add: t')
  next
    case (Cons y ys)
    show ?thesis
    proof (cases "y = x")
      case False
      then show ?thesis by (simp add: Cons t' update_conv')
    next
      case True
      have ih: "(lookup m' ys = Inr (File c)) = (lookup ?m0 ys = Inr (File c))"
        using "3.IH" [OF m'] .
      show ?thesis
      proof (cases "map_of es x")
        case None
        then have "lookup ?m0 ys \<noteq> Inr (File c)"
          by (auto dest: lookup_fresh)
        with ih None True show ?thesis
          by (simp add: Cons t' update_conv')
      next
        case (Some m)
        with ih True show ?thesis
          by (simp add: Cons t' update_conv')
      qed
    qed
  qed
qed

lemma mkdirAll_other:
  "mkdirAll t p = Inr t' \<Longrightarrow> \<not> prefix q p \<Longrightarrow> lookup t' q = lookup t q"
proof (induction t p arbitrary: t' q rule: mkdirAll.induct)
  case (1 c xs)
  then show ?case by simp
next
  case (2 r es)
  then show ?case by simp
next
  case (3 r es x xs)
  let ?m0 = "case map_of es x of None \<Rightarrow> Dir True [] | Some m \<Rightarrow> m"
  from "3.prems"(1) obtain m' where m': "mkdirAll ?m0 xs = Inr m'"
    and t': "t' = Dir r (AList.update x m' es)"
    by (rule mkdirAll_step)
  show ?case
  proof (cases q)
    case Nil
    with "3.prems"(2) show ?thesis by simp
  next
    case (Cons y ys)
    show ?thesis
    proof (cases "y = x")
      case False
      then show ?thesis by (simp add: Cons t' update_conv')
    next
      case True
      with "3.prems"(2) Cons have np: "\<not> prefix ys xs" by simp
      then have ys: "ys \<noteq> []" by auto
      have ih: "lookup m' ys = lookup ?m0 ys"
        using "3.IH" [OF m' np] .
      show ?thesis
      proof (cases "map_of es x")
        case None
        with ys have "lookup ?m0 ys = Inl ENOENT"
          by (cases ys) auto
        with ih None True show ?thesis
          by (simp add: Cons t' update_conv')
      next
        case (Some m)
        with ih True show ?thesis
          by (simp add: Cons t' update_conv')
      qed
    qed
  qed
qed

lemma mkdirAll_is_dir:
  "mkdirAll t p = Inr t' \<Longrightarrow> \<exists>r es. lookup t' p = Inr (Dir r es)"
by (induction t p arbitrary: t' rule: mkdirAll.induct)
   (auto split: sum.splits option.splits simp: update_conv')

lemma writeFile_lookup: "writeFile t p d = Inr t' \<Longrightarrow> lookup t' p = Inr (File d)"
by (induction t p d arbitrary: t' rule: writeFile.induct)
   (auto split: sum.splits option.splits if_splits simp: update_conv')

lemma writeFile_dir:
  "writeFile t p d = Inr t' \<Longrightarrow> lookup t q = Inr (Dir r es) \<Longrightarrow> \<exists>es'. lookup t' q = Inr (Dir r es')"
proof (induction t p d arbitrary: t' q rule: writeFile.induct)
  case (1 c d)
  then show ?case by (cases q) auto
next
  case (2 r es d)
  then show ?case by simp
next
  case (3 c x xs d)
  then show ?case by simp
next
  case (4 r0 es0 x xs d)
  show ?case
  proof (cases q)
    case Nil
    with 4 show ?thesis by (auto split: sum.splits option.splits if_splits)
  next
    case (Cons y ys)
    with 4 show ?thesis
      by (auto split: sum.splits option.splits if_splits simp: update_conv')
  qed
qed

subsection \<open>The two scans\<close>

lemma Println_frame [simp]:
  "fs (Println s w) = fs w" "HOME (Println s w) = HOME w" "stderr (Println s w) = stderr w"
  "procs (Println s w) = procs w" "stdout (Println s w) = stdout w @ [s]"
  by (simp_all add: Println_def)

lemma log_Printf_frame [simp]:
  "fs (log_Printf s w) = fs w" "HOME (log_Printf s w) = HOME w" "stdout (log_Printf s w) = stdout w"
  "procs (log_Printf s w) = procs w" "stderr (log_Printf s w) = stderr w @ [s]"
  by (simp_all add: log_Printf_def)

lemma fold_Println_frame [simp]:
  "fs (fold (\<lambda>i. Println (f i)) xs w) = fs w"
  "HOME (fold (\<lambda>i. Println (f i)) xs w) = HOME w"
  "stdout (fold (\<lambda>i. Println (f i)) xs w) = stdout w @ map f xs"
  by (induction xs arbitrary: w) simp_all

lemma fold_Println_lines [simp]:
  "fs (fold Println ls w) = fs w" "HOME (fold Println ls w) = HOME w"
  by (induction ls arbitrary: w) simp_all

lemma archLoop_same: "list_archLoop config fi ads acc = switch_archLoop config fi ads acc"
  by (induction config fi ads acc rule: list_archLoop.induct) simp_all

lemma list_versionLoop_frame:
  "fs (snd (list_versionLoop config dir w acc)) = fs w \<and>
   HOME (snd (list_versionLoop config dir w acc)) = HOME w"
  by (induction dir arbitrary: w acc) (auto simp: Let_def split: sum.splits)

lemma switch_versionLoop_frame:
  "fs (snd (switch_versionLoop config dir w acc)) = fs w \<and>
   HOME (snd (switch_versionLoop config dir w acc)) = HOME w \<and>
   stdout (snd (switch_versionLoop config dir w acc)) = stdout w"
  by (induction dir arbitrary: w acc) (auto simp: Let_def split: sum.splits)

lemma versionLoop_same:
  "fs w = fs w' \<Longrightarrow>
   fst (list_versionLoop config dir w acc) = fst (switch_versionLoop config dir w' acc)"
proof (induction dir arbitrary: w w' acc)
  case Nil
  then show ?case by simp
next
  case (Cons fi dir)
  show ?case
    using Cons.prems
    by (auto simp: Let_def archLoop_same split: sum.splits intro!: Cons.IH)
qed

lemma switch_versionLoop_frameD:
  "switch_versionLoop config dir w acc = (found, w1) \<Longrightarrow>
   fs w1 = fs w \<and> HOME w1 = HOME w \<and> stdout w1 = stdout w"
  using switch_versionLoop_frame [of config dir w acc] by simp

lemma archLoop_aligned:
  "aligned config acc \<Longrightarrow> aligned config (list_archLoop config fi ads acc)"
  by (induction config fi ads acc rule: list_archLoop.induct) simp_all

lemma versionLoop_aligned:
  "aligned config acc \<Longrightarrow> aligned config (fst (list_versionLoop config dir w acc))"
  by (induction dir arbitrary: w acc) (auto simp: Let_def archLoop_aligned split: sum.splits)

lemma listScan_switchScan:
  assumes "listScan config w = (Inr found, wl)"
  shows "\<exists>w1. switchScan config w = (Inr found, w1) \<and> fs w1 = fs w \<and> HOME w1 = HOME w"
    and "aligned config found"
proof -
  from assms obtain dir where dir: "ReadDir (fs w) (GoDownloadDir config) = Inr dir"
    and loop: "list_versionLoop config dir
                 (Println (''= Go versions from '' @ GoDownloadDir config @ '' ='') w) ([], [], [])
               = (found, wl)"
    by (auto simp: listScan_def Let_def split: if_splits sum.splits prod.splits)
  let ?w0 = "Println (''= Go versions from '' @ GoDownloadDir config @ '' ='') w"
  have "fst (switch_versionLoop config dir w ([], [], [])) = found"
    using versionLoop_same [of ?w0 w config dir "([], [], [])"] loop by simp
  then show "\<exists>w1. switchScan config w = (Inr found, w1) \<and> fs w1 = fs w \<and> HOME w1 = HOME w"
    using switch_versionLoop_frame [of config dir w "([], [], [])"]
    by (auto simp: switchScan_def dir split: prod.splits)
  show "aligned config found"
    using versionLoop_aligned [of config "([], [], [])" dir ?w0] loop by simp
qed

lemma switchScan_frame:
  "switchScan config w = (r, w1) \<Longrightarrow> fs w1 = fs w \<and> HOME w1 = HOME w \<and> stdout w1 = stdout w"
  by (auto simp: switchScan_def split: sum.splits prod.splits dest!: switch_versionLoop_frameD)

lemma switchTarget_frame:
  "switchTarget archFlag config s w = (r, w1) \<Longrightarrow>
   fs w1 = fs w \<and> HOME w1 = HOME w \<and> stdout w1 = stdout w"
  by (auto simp: switchTarget_def split: sum.splits prod.splits if_splits option.splits
      dest!: switchScan_frame)

text \<open>
  C1: when the argument of switch parses as a number \<open>i\<close> between 1 and the number of
  entries that the scan of list finds, switch selects the version, the architecture and
  the path at index \<open>i - 1\<close> of that same scan, list returns no error, and the
  \<open>i\<close>-th line that list prints after its scan is the line \<open>i. version (architecture)\<close>
  of that very pair. The two scans are separate loops in the source; they yield the same
  three slices because both depend on the file system only.
\<close>

theorem switch_by_index_matches_list:
  assumes "listScan config w = (Inr (versions, architectures, paths), wl)"
    and "Atoi s = Some i" and "1 \<le> i" and "i \<le> int (length versions)"
  shows "(\<exists>w'. switchTarget archFlag config s w =
            (Inr (versions ! nat (i - 1), architectures ! nat (i - 1), paths ! nat (i - 1)), w'))
       \<and> fst (listGoVersions config w) = None
       \<and> stdout (snd (listGoVersions config w)) ! (length (stdout wl) + nat (i - 1))
           = list_line (nat i) (versions ! nat (i - 1)) (architectures ! nat (i - 1))
       \<and> length architectures = length versions
       \<and> paths ! nat (i - 1) = GoDownloadDir config @ ''/'' @ versions ! nat (i - 1)
                                  @ ''/'' @ architectures ! nat (i - 1)"
proof -
  from listScan_switchScan [OF assms(1)] obtain w1
    where scan: "switchScan config w = (Inr (versions, architectures, paths), w1)"
      and al: "length architectures = length versions"
        "paths = map2 (\<lambda>v a. GoDownloadDir config @ ''/'' @ v @ ''/'' @ a) versions architectures"
    by auto
  have k: "nat (i - 1) < length versions" and ne: "length versions \<noteq> 0"
    using assms(3,4) by auto
  have sel: "switchTarget archFlag config s w =
      (Inr (versions ! nat (i - 1), architectures ! nat (i - 1), paths ! nat (i - 1)), w1)"
    using assms(2,3,4) ne by (simp add: switchTarget_def scan)
  have out: "stdout (snd (listGoVersions config w)) =
      stdout wl @ map (\<lambda>k. list_line (k + 1) (versions ! k) (architectures ! k)) [0..<length versions]"
    and res: "fst (listGoVersions config w) = None"
    using ne by (simp_all add: listGoVersions_def assms(1) Let_def)
  have "stdout (snd (listGoVersions config w)) ! (length (stdout wl) + nat (i - 1))
          = list_line (nat (i - 1) + 1) (versions ! nat (i - 1)) (architectures ! nat (i - 1))"
    unfolding out using k by (simp add: nth_append)
  moreover have "nat (i - 1) + 1 = nat i" using assms(3) by simp
  moreover have "paths ! nat (i - 1) = GoDownloadDir config @ ''/'' @ versions ! nat (i - 1)
                                  @ ''/'' @ architectures ! nat (i - 1)"
    using k al by simp
  ultimately show ?thesis using sel res al(1) by auto
qed

theorem switch_by_index_matches_list_witness:
  "listScan NewConfig demo_world =
     (Inr ([''1.22.0'', ''1.22.0'', ''1.23.0''],
           [''darwin-amd64'', ''linux-amd64'', ''linux-amd64''],
           [''/usr/local/bin/go-switcher/1.22.0/darwin-amd64'',
            ''/usr/local/bin/go-switcher/1.22.0/linux-amd64'',
            ''/usr/local/bin/go-switcher/1.23.0/linux-amd64'']),
      Println ''= Go versions from /usr/local/bin/go-switcher ='' demo_world)
   \<and> Atoi ''2'' = Some 2
   \<and> (\<exists>w'. switchTarget ''darwin-amd64'' NewConfig ''2'' demo_world =
              (Inr (''1.22.0'', ''linux-amd64'', ''/usr/local/bin/go-switcher/1.22.0/linux-amd64''),
               w'))
   \<and> stdout (snd (listGoVersions NewConfig demo_world)) ! 2 = list_line 2 ''1.22.0'' ''linux-amd64''"
proof -
  have h1: "listScan NewConfig demo_world =
     (Inr ([''1.22.0'', ''1.22.0'', ''1.23.0''],
           [''darwin-amd64'', ''linux-amd64'', ''linux-amd64''],
           [''/usr/local/bin/go-switcher/1.22.0/darwin-amd64'',
            ''/usr/local/bin/go-switcher/1.22.0/linux-amd64'',
            ''/usr/local/bin/go-switcher/1.23.0/linux-amd64'']),
      Println ''= Go versions from /usr/local/bin/go-switcher ='' demo_world)"
    by code_simp
  have h2: "Atoi ''2'' = Some 2"
    by code_simp
  have h3: "stdout (Println ''= Go versions from /usr/local/bin/go-switcher ='' demo_world)
              = [''= Go versions from /usr/local/bin/go-switcher ='']"
    by (simp add: demo_world_def)
  show ?thesis
    using switch_by_index_matches_list [OF h1 h2, of "''darwin-amd64''"] h1 h2 h3
    by (simp add: numeral_2_eq_2)
qed

subsection \<open>switch: the argument out of range, the root missing\<close>

text \<open>
  C4 (amended): when the scan of switch yields \<open>count\<close> entries and the argument parses
  as a number below 1 or above \<open>count\<close>, switch fails and leaves the file system, and
  with it the profile, as it was. The error is the range error when \<open>count\<close> is at
  least 1 and the error "no Go versions found" when the scan is empty: that test comes
  first in the code.
\<close>

theorem switch_out_of_range:
  assumes "switchScan config w = (Inr (versions, architectures, paths), w1)"
    and "Atoi s = Some n"
    and "n < 1 \<or> int (length versions) < n"
  shows "switchGoVersion archFlag config s w =
           (Some (if length versions = 0 then NoVersionsFound
                  else InvalidNumber (length versions)), w1)
       \<and> fs w1 = fs w \<and> HOME w1 = HOME w"
  using assms switchScan_frame [OF assms(1)]
  by (auto simp: switchGoVersion_def switchTarget_def)

text \<open>
  C4, as stated, fails for a scan without entries: every number is then out of range, and
  the error is "no Go versions found", not the range error.
\<close>

theorem switch_out_of_range_counterexample:
  "fst (switchScan NewConfig empty_world) = Inr ([], [], [])
   \<and> Atoi ''1'' = Some 1
   \<and> fst (switchGoVersion ''linux-amd64'' NewConfig ''1'' empty_world) = Some NoVersionsFound
   \<and> fst (switchGoVersion ''linux-amd64'' NewConfig ''1'' empty_world) \<noteq> Some (InvalidNumber 0)"
  by code_simp

theorem switch_out_of_range_witness:
  "switchScan NewConfig demo_world =
     (Inr ([''1.22.0'', ''1.22.0'', ''1.23.0''],
           [''darwin-amd64'', ''linux-amd64'', ''linux-amd64''],
           [''/usr/local/bin/go-switcher/1.22.0/darwin-amd64'',
            ''/usr/local/bin/go-switcher/1.22.0/linux-amd64'',
            ''/usr/local/bin/go-switcher/1.23.0/linux-amd64'']), demo_world)
   \<and> Atoi ''4'' = Some 4
   \<and> switchGoVersion ''linux-amd64'' NewConfig ''4'' demo_world
        = (Some (InvalidNumber 3), demo_world)"
proof -
  have h1: "switchScan NewConfig demo_world =
     (Inr ([''1.22.0'', ''1.22.0'', ''1.23.0''],
           [''darwin-amd64'', ''linux-amd64'', ''linux-amd64''],
           [''/usr/local/bin/go-switcher/1.22.0/darwin-amd64'',
            ''/usr/local/bin/go-switcher/1.22.0/linux-amd64'',
            ''/usr/local/bin/go-switcher/1.23.0/linux-amd64'']), demo_world)"
    by code_simp
  have h2: "Atoi ''4'' = Some 4"
    by code_simp
  show ?thesis
    using switch_out_of_range [OF h1 h2, of "''linux-amd64''"] h1 h2 by simp
qed

lemma ReadDir_ENOENT: "Stat t p = Inl e \<Longrightarrow> ReadDir t p = Inl e"
  by (simp add: Stat_def ReadDir_def)

text \<open>
  C5: when the root does not exist, list returns no error and changes nothing in the file
  system, but switch returns the error of reading the directory: it lists the root
  without the test for existence that list and clean make first, so it does not treat the
  missing root as an empty store.
\<close>

theorem missing_root_list_and_switch:
  assumes "Stat (fs w) (GoDownloadDir config) = Inl ENOENT"
  shows "fst (listGoVersions config w) = None
       \<and> fs (snd (listGoVersions config w)) = fs w
       \<and> switchGoVersion archFlag config s w = (Some (ReadDirectory ENOENT), w)"
  using assms ReadDir_ENOENT [OF assms]
  by (simp add: listGoVersions_def listScan_def switchGoVersion_def switchTarget_def
      switchScan_def Let_def)

theorem missing_root_witness:
  "Stat (fs rootless_world) (GoDownloadDir NewConfig) = Inl ENOENT
   \<and> fst (listGoVersions NewConfig rootless_world) = None
   \<and> switchGoVersion ''linux-amd64'' NewConfig ''1'' rootless_world
        = (Some (ReadDirectory ENOENT), rootless_world)"
proof -
  have h: "Stat (fs rootless_world) (GoDownloadDir NewConfig) = Inl ENOENT"
    by code_simp
  show ?thesis
    using missing_root_list_and_switch [OF h, of "''linux-amd64''" "''1''"] h by simp
qed


subsection \<open>switch: the workspace directory and the profile\<close>

lemma profile_path: "components (h @ ''/.profile'') = components h @ [''.profile'']"
  using components_append_name [of "''.profile''" h] by (simp add: valid_name_def)

lemma workspace_path: "components (d @ ''/workspace'') = components d @ [''workspace'']"
  using components_append_name [of "''workspace''" d] by (simp add: valid_name_def)

lemma MkdirAll_is_dir: "MkdirAll t p = Inr t1 \<Longrightarrow> \<exists>d es. Stat t1 p = Inr (Dir d es)"
  unfolding MkdirAll_def Stat_def by (rule mkdirAll_is_dir)

lemma WriteFile_keeps_dir:
  "WriteFile t p c = Inr t4 \<Longrightarrow> Stat t q = Inr (Dir r es) \<Longrightarrow> \<exists>es'. Stat t4 q = Inr (Dir r es')"
  unfolding WriteFile_def Stat_def by (rule writeFile_dir)

lemma ReadFile_File: "(ReadFile t p = Inr c) = (lookup t (components p) = Inr (File c))"
  by (auto simp: ReadFile_def split: sum.splits node.splits)

lemma MkdirAll_ReadFile:
  "MkdirAll t g = Inr t3 \<Longrightarrow> (ReadFile t3 p = Inr c) = (ReadFile t p = Inr c)"
  unfolding ReadFile_File MkdirAll_def by (rule mkdirAll_File_iff)

lemma WriteFile_ReadFile: "WriteFile t p c = Inr t4 \<Longrightarrow> ReadFile t4 p = Inr c"
  unfolding ReadFile_File WriteFile_def by (rule writeFile_lookup)

lemma MkdirAll_workspace_profile:
  assumes mk: "MkdirAll t (d @ ''/workspace'') = Inr t3"
    and ex: "Stat t d = Inr n"
    and np: "Stat t (h @ ''/.profile'') = Inl ENOENT"
  shows "Stat t3 (h @ ''/.profile'') = Inl ENOENT"
proof -
  let ?q = "components h @ [''.profile'']"
  have "\<not> prefix ?q (components d)"
  proof
    assume "prefix ?q (components d)"
    with ex obtain m where "lookup t ?q = Inr m"
      unfolding Stat_def by (blast dest: lookup_prefix)
    with np show False by (simp add: Stat_def profile_path)
  qed
  then have "\<not> prefix ?q (components d @ [''workspace''])"
    by simp
  with mk have "lookup t3 ?q = lookup t ?q"
    unfolding MkdirAll_def workspace_path by (rule mkdirAll_other)
  with np show ?thesis by (simp add: Stat_def profile_path)
qed

lemma switchGoVersion_success:
  assumes "switchGoVersion archFlag config s w = (None, w')"
  obtains version arch versionDir w1 t3 old t4 where
    "switchTarget archFlag config s w = (Inr (version, arch, versionDir), w1)"
    "MkdirAll (fs w) (versionDir @ ''/workspace'') = Inr t3"
    "ReadFile t3 (HOME w @ ''/.profile'') = Inr old"
    "WriteFile t3 (HOME w @ ''/.profile'') (rewriteProfile versionDir old) = Inr t4"
    "fs w' = t4" "HOME w' = HOME w"
  using assms
  by (auto simp: switchGoVersion_def Let_def UserHomeDir_def rewriteProfile_def
      split: prod.splits sum.splits if_splits option.splits dest!: switchTarget_frame)

text \<open>
  C2: after a successful switch the profile holds the text that the specification
  describes, computed from the old content and the selected version directory: the lines
  of the old content without those that contain one of the three export substrings, then
  a blank line, the comment line and the three export lines of the version directory,
  joined by newlines. The old content is the content before the call.
\<close>

theorem switch_rewrites_profile:
  assumes "switchGoVersion archFlag config s w = (None, w')"
  shows "\<exists>version arch versionDir w1 old.
           switchTarget archFlag config s w = (Inr (version, arch, versionDir), w1)
         \<and> ReadFile (fs w) (HOME w @ ''/.profile'') = Inr old
         \<and> ReadFile (fs w') (HOME w @ ''/.profile'') = Inr (spec_rewrite versionDir old)"
proof -
  from assms obtain version arch versionDir w1 t3 old t4 where
    tgt: "switchTarget archFlag config s w = (Inr (version, arch, versionDir), w1)"
    and mk: "MkdirAll (fs w) (versionDir @ ''/workspace'') = Inr t3"
    and rd: "ReadFile t3 (HOME w @ ''/.profile'') = Inr old"
    and wr: "WriteFile t3 (HOME w @ ''/.profile'') (rewriteProfile versionDir old) = Inr t4"
    and fs': "fs w' = t4"
    by (rule switchGoVersion_success)
  from rd have "ReadFile (fs w) (HOME w @ ''/.profile'') = Inr old"
    by (simp add: MkdirAll_ReadFile [OF mk])
  moreover from wr have "ReadFile (fs w') (HOME w @ ''/.profile'') = Inr (spec_rewrite versionDir old)"
    by (simp add: fs' WriteFile_ReadFile rewriteProfile_spec)
  ultimately show ?thesis using tgt by blast
qed

text \<open>
  C6: when switch resolves a version directory that exists and the file
  \<open>$HOME/.profile\<close> does not exist, switch returns an error, and the profile still does
  not exist afterwards.
\<close>

theorem switch_without_profile_fails:
  assumes tgt: "switchTarget archFlag config s w = (Inr (version, arch, versionDir), w1)"
    and ex: "Stat (fs w) versionDir = Inr n"
    and np: "Stat (fs w) (HOME w @ ''/.profile'') = Inl ENOENT"
  shows "\<exists>e w'. switchGoVersion archFlag config s w = (Some e, w')
              \<and> HOME w' = HOME w
              \<and> Stat (fs w') (HOME w @ ''/.profile'') = Inl ENOENT"
proof -
  from switchTarget_frame [OF tgt] have fr: "fs w1 = fs w" "HOME w1 = HOME w"
    by simp_all
  show ?thesis
  proof (cases "MkdirAll (fs w) (versionDir @ ''/workspace'')")
    case (Inl e)
    with tgt ex np fr show ?thesis
      by (simp add: switchGoVersion_def Let_def)
  next
    case (Inr t3)
    from MkdirAll_workspace_profile [OF Inr ex np]
    have st: "Stat t3 (HOME w @ ''/.profile'') = Inl ENOENT" .
    then have "ReadFile t3 (HOME w @ ''/.profile'') = Inl ENOENT"
      by (simp add: Stat_def ReadFile_def)
    with tgt ex fr Inr st show ?thesis
      by (cases "HOME w = []") (simp_all add: switchGoVersion_def Let_def UserHomeDir_def)
  qed
qed

lemma switchTarget_errors:
  "switchTarget archFlag config s w = (Inl e, w1) \<Longrightarrow>
   (\<exists>x. e = ReadDirectory x) \<or> e = NoVersionsFound \<or> (\<exists>k. e = InvalidNumber k)"
  by (auto simp: switchTarget_def switchScan_def
      split: prod.splits sum.splits if_splits option.splits)

text \<open>
  C10: a switch that succeeds has created the directory \<open>workspace\<close> in the selected
  version directory. It does so before it touches the profile: the directory is there as
  well when the switch fails at finding the home directory or at reading or writing the
  profile.
\<close>

theorem switch_creates_workspace:
  assumes "switchGoVersion archFlag config s w = (r, w')"
    and "r = None \<or> r = Some GetHomeDirectory \<or> (\<exists>e. r = Some (ReadProfile e))
         \<or> (\<exists>e. r = Some (WriteProfile e))"
  shows "\<exists>version arch versionDir w1 d es.
           switchTarget archFlag config s w = (Inr (version, arch, versionDir), w1)
         \<and> Stat (fs w') (versionDir @ ''/workspace'') = Inr (Dir d es)"
  using assms
  by (auto simp: switchGoVersion_def Let_def
      split: prod.splits sum.splits if_splits option.splits
      dest!: MkdirAll_is_dir switchTarget_errors dest: WriteFile_keeps_dir)

theorem switch_rewrites_profile_witness:
  "fst (switchGoVersion ''darwin-amd64'' NewConfig ''2'' demo_world) = None
   \<and> ReadFile (fs (snd (switchGoVersion ''darwin-amd64'' NewConfig ''2'' demo_world)))
        ''/home/u/.profile''
       = Inr (spec_rewrite ''/usr/local/bin/go-switcher/1.22.0/linux-amd64'' demo_profile)"
proof -
  have h1: "fst (switchGoVersion ''darwin-amd64'' NewConfig ''2'' demo_world) = None"
    by code_simp
  then have h: "switchGoVersion ''darwin-amd64'' NewConfig ''2'' demo_world
                  = (None, snd (switchGoVersion ''darwin-amd64'' NewConfig ''2'' demo_world))"
    by (metis prod.collapse)
  have h2: "switchTarget ''darwin-amd64'' NewConfig ''2'' demo_world
              = (Inr (''1.22.0'', ''linux-amd64'',
                      ''/usr/local/bin/go-switcher/1.22.0/linux-amd64''), demo_world)"
    by code_simp
  have h3: "ReadFile (fs demo_world) ''/home/u/.profile'' = Inr demo_profile"
    by code_simp
  have h4: "HOME demo_world = ''/home/u''"
    by (simp add: demo_world_def)
  show ?thesis
    using switch_rewrites_profile [OF h] h1 h2 h3 h4 by auto
qed

theorem switch_without_profile_fails_witness:
  "switchTarget ''linux-amd64'' NewConfig ''1.23.0'' noprofile_world
     = (Inr (''1.23.0'', ''linux-amd64'', ''/usr/local/bin/go-switcher/1.23.0/linux-amd64''),
        noprofile_world)
   \<and> Stat (fs noprofile_world) ''/usr/local/bin/go-switcher/1.23.0/linux-amd64''
       = Inr (Dir True [(''go'', Dir True [])])
   \<and> Stat (fs noprofile_world) ''/home/u/.profile'' = Inl ENOENT
   \<and> (\<exists>e w'. switchGoVersion ''linux-amd64'' NewConfig ''1.23.0'' noprofile_world = (Some e, w')
              \<and> Stat (fs w') ''/home/u/.profile'' = Inl ENOENT)"
proof -
  have h1: "switchTarget ''linux-amd64'' NewConfig ''1.23.0'' noprofile_world
     = (Inr (''1.23.0'', ''linux-amd64'', ''/usr/local/bin/go-switcher/1.23.0/linux-amd64''),
        noprofile_world)"
    by code_simp
  have h2: "Stat (fs noprofile_world) ''/usr/local/bin/go-switcher/1.23.0/linux-amd64''
       = Inr (Dir True [(''go'', Dir True [])])"
    by code_simp
  have h4: "HOME noprofile_world = ''/home/u''"
    by (simp add: noprofile_world_def)
  have h3: "Stat (fs noprofile_world) (HOME noprofile_world @ ''/.profile'') = Inl ENOENT"
    unfolding h4 by code_simp
  show ?thesis
    using switch_without_profile_fails [OF h1 h2 h3] h1 h2 h3 h4 by auto
qed

theorem switch_creates_workspace_witness:
  "fst (switchGoVersion ''darwin-amd64'' NewConfig ''2'' demo_world) = None
   \<and> Stat (fs demo_world) ''/usr/local/bin/go-switcher/1.22.0/linux-amd64/workspace''
       = Inl ENOENT
   \<and> (\<exists>d es. Stat (fs (snd (switchGoVersion ''darwin-amd64'' NewConfig ''2'' demo_world)))
                 ''/usr/local/bin/go-switcher/1.22.0/linux-amd64/workspace'' = Inr (Dir d es))"
proof -
  have h1: "fst (switchGoVersion ''darwin-amd64'' NewConfig ''2'' demo_world) = None"
    by code_simp
  then have h: "switchGoVersion ''darwin-amd64'' NewConfig ''2'' demo_world
                  = (None, snd (switchGoVersion ''darwin-amd64'' NewConfig ''2'' demo_world))"
    by (metis prod.collapse)
  have h2: "switchTarget ''darwin-amd64'' NewConfig ''2'' demo_world
              = (Inr (''1.22.0'', ''linux-amd64'',
                      ''/usr/local/bin/go-switcher/1.22.0/linux-amd64''), demo_world)"
    by code_simp
  have h3: "Stat (fs demo_world) ''/usr/local/bin/go-switcher/1.22.0/linux-amd64/workspace''
              = Inl ENOENT"
    by code_simp
  show ?thesis
    using switch_creates_workspace [OF h] h1 h2 h3 by auto
qed

subsection \<open>clean\<close>

lemma removeTree_Cons:
  "xs \<noteq> [] \<Longrightarrow>
   removeTree (Dir r es) (x # xs) =
     (case map_of es x of
        None \<Rightarrow> (None, Dir r es)
      | Some m \<Rightarrow> (case removeTree m xs of (e, m') \<Rightarrow> (e, Dir r (AList.update x m' es))))"
  by (cases xs) (auto split: option.splits)

lemma removeTree_removable:
  assumes "lookup t rc = Inr (Dir r es)"
    and "\<And>m. map_of es x = Some m \<Longrightarrow> residue m = None"
  shows "\<exists>t'. removeTree t (rc @ [x]) = (None, t') \<and> lookup t' rc = Inr (Dir r (AList.delete x es))"
  using assms(1)
proof (induction rc arbitrary: t)
  case Nil
  then have t: "t = Dir r es" by simp
  show ?case
  proof (cases "map_of es x")
    case None
    then have "x \<notin> fst ` set es" by (simp add: map_of_eq_None_iff)
    with None show ?thesis by (simp add: t)
  next
    case (Some m)
    with assms(2) show ?thesis by (simp add: t)
  qed
next
  case (Cons y ys)
  then obtain r0 es0 m0 where t: "t = Dir r0 es0" and y: "map_of es0 y = Some m0"
    and m0: "lookup m0 ys = Inr (Dir r es)"
    by (cases t) (auto split: option.splits)
  from Cons.IH [OF m0] obtain m' where rm: "removeTree m0 (ys @ [x]) = (None, m')"
    and m': "lookup m' ys = Inr (Dir r (AList.delete x es))"
    by blast
  show ?case
    by (simp add: t y rm m' removeTree_Cons update_conv')
qed

lemma fold_delete_filter: "fold AList.delete ns es = filter (\<lambda>e. fst e \<notin> set ns) es"
proof (induction ns arbitrary: es)
  case Nil
  then show ?case by simp
next
  case (Cons n ns)
  have "AList.delete n es = filter (\<lambda>e. fst e \<noteq> n) es"
    by (induction es) (auto simp: AList.delete_eq)
  with Cons show ?case by (simp add: conj_commute)
qed

lemma clean_loop_removable:
  assumes "lookup (fs w) (components (GoDownloadDir config)) = Inr (Dir True es)"
    and "\<forall>fi\<in>set dir. valid_name (Name fi)"
    and "\<forall>k m. map_of es k = Some m \<longrightarrow> residue m = None"
  shows "lookup (fs (clean_loop config dir w)) (components (GoDownloadDir config))
           = Inr (Dir True (fold AList.delete (map Name (filter IsDir dir)) es))
       \<and> stderr (clean_loop config dir w) = stderr w
       \<and> HOME (clean_loop config dir w) = HOME w"
  using assms
proof (induction dir arbitrary: w es)
  case Nil
  then show ?case by simp
next
  case (Cons fi dir)
  show ?case
  proof (cases "IsDir fi")
    case False
    with Cons show ?thesis by simp
  next
    case True
    let ?rc = "components (GoDownloadDir config)"
    let ?w1 = "Println (''Removing version: '' @ Name fi) w"
    have path: "components (GoDownloadDir config @ ''/'' @ Name fi) = ?rc @ [Name fi]"
      using components_append_name [of "Name fi" "GoDownloadDir config"] Cons.prems(2)
      by simp
    from Cons.prems(3) have "\<And>m. map_of es (Name fi) = Some m \<Longrightarrow> residue m = None"
      by blast
    with Cons.prems(1) obtain t' where rm: "removeTree (fs w) (?rc @ [Name fi]) = (None, t')"
      and t': "lookup t' ?rc = Inr (Dir True (AList.delete (Name fi) es))"
      using removeTree_removable by blast
    have step: "clean_loop config (fi # dir) w = clean_loop config dir (?w1\<lparr>fs := t'\<rparr>)"
      using True rm by (simp add: Let_def RemoveAll_def path del: append.simps)
    have rest: "\<forall>k m. map_of (AList.delete (Name fi) es) k = Some m \<longrightarrow> residue m = None"
      using Cons.prems(3) by (auto simp: delete_conv' split: if_splits)
    have "lookup (fs (?w1\<lparr>fs := t'\<rparr>)) ?rc = Inr (Dir True (AList.delete (Name fi) es))"
      using t' by simp
    from Cons.IH [OF this _ rest] Cons.prems(2) True show ?thesis
      unfolding step by simp
  qed
qed


lemma ReadDir_entries:
  "Stat t p = Inr (Dir True es) \<Longrightarrow>
   ReadDir t p = Inr (map (\<lambda>e. DirEntry (fst e) (is_dir (snd e))) (sort_key fst es))"
  by (simp add: Stat_def ReadDir_def)

lemma keep_files:
  assumes "distinct (map fst es)"
  shows "map (\<lambda>e. DirEntry (fst e) (is_dir (snd e)))
           (sort_key fst (filter (\<lambda>e. fst e \<notin> fst ` {e \<in> set es. is_dir (snd e)}) es))
         = filter (\<lambda>fi. \<not> IsDir fi) (map (\<lambda>e. DirEntry (fst e) (is_dir (snd e))) (sort_key fst es))"
proof -
  have "(fst e \<notin> fst ` {e \<in> set es. is_dir (snd e)}) = (\<not> is_dir (snd e))" if "e \<in> set es" for e
  proof -
    have "e' = e" if "e' \<in> set es" "fst e' = fst e" for e'
      using assms that \<open>e \<in> set es\<close> by (metis eq_key_imp_eq_value prod.collapse)
    then show ?thesis using that by force
  qed
  then have "filter (\<lambda>e. fst e \<notin> fst ` {e \<in> set es. is_dir (snd e)}) es
               = filter (\<lambda>e. \<not> is_dir (snd e)) es"
    by (intro filter_cong) auto
  then show ?thesis
    by (simp add: filter_sort [symmetric] filter_map comp_def)
qed

text \<open>
  C7 (amended): clean removes every directory directly under the root, with all it
  contains, and leaves the entries that are not directories. When the root is a listable
  directory with well-formed names and every directory under it can be removed (none
  holds a non-empty directory that cannot be listed), clean returns no error, logs no
  warning, and the root then lists exactly its former entries that are not directories.
\<close>

theorem clean_removes_directories:
  assumes root: "Stat (fs w) (GoDownloadDir config) = Inr (Dir True es)"
    and names: "distinct (map fst es)" "list_all valid_name (map fst es)"
    and removable: "list_all (\<lambda>e. residue (snd e) = None) es"
    and listing: "ReadDir (fs w) (GoDownloadDir config) = Inr dir"
  shows "fst (cleanGoVersions config w) = None
       \<and> stderr (snd (cleanGoVersions config w)) = stderr w
       \<and> ReadDir (fs (snd (cleanGoVersions config w))) (GoDownloadDir config)
           = Inr (filter (\<lambda>fi. \<not> IsDir fi) dir)"
proof -
  let ?w0 = "Println (''= Removing all Go versions from '' @ GoDownloadDir config @ '' ='') w"
  let ?rc = "components (GoDownloadDir config)"
  have dir: "dir = map (\<lambda>e. DirEntry (fst e) (is_dir (snd e))) (sort_key fst es)"
    using ReadDir_entries [OF root] listing by simp
  show ?thesis
  proof (cases "dir = []")
    case True
    with root listing show ?thesis
      by (simp add: cleanGoVersions_def Let_def)
  next
    case False
    have r0: "lookup (fs ?w0) ?rc = Inr (Dir True es)"
      using root by (simp add: Stat_def)
    have v: "\<forall>fi\<in>set dir. valid_name (Name fi)"
      using names(2) by (auto simp: dir list_all_iff)
    have rm: "\<forall>k m. map_of es k = Some m \<longrightarrow> residue m = None"
      using removable by (force simp: list_all_iff dest: map_of_SomeD)
    from clean_loop_removable [OF r0 v rm]
    have fin: "lookup (fs (clean_loop config dir ?w0)) ?rc
                 = Inr (Dir True (fold AList.delete (map Name (filter IsDir dir)) es))"
      and err: "stderr (clean_loop config dir ?w0) = stderr w"
      by simp_all
    have "map Name (filter IsDir dir) = map fst (filter (\<lambda>e. is_dir (snd e)) (sort_key fst es))"
      by (simp add: dir filter_map comp_def)
    then have ns: "set (map Name (filter IsDir dir)) = fst ` {e \<in> set es. is_dir (snd e)}"
      by simp
    have res: "cleanGoVersions config w
                 = (None, Println ''= Cleanup completed ='' (clean_loop config dir ?w0))"
      using root listing False by (simp add: cleanGoVersions_def Let_def)
    have "ReadDir (fs (clean_loop config dir ?w0)) (GoDownloadDir config)
            = Inr (filter (\<lambda>fi. \<not> IsDir fi) dir)"
      unfolding ReadDir_def fin fold_delete_filter ns
      using keep_files [OF names(1)] by (simp add: dir)
    with err show ?thesis by (simp add: res)
  qed
qed

text \<open>
  C7, as stated, fails when the root holds a regular file: the loop skips every entry that
  is not a directory, so after a clean without any failure the file is still listed.
\<close>

theorem clean_keeps_files_counterexample:
  "fst (cleanGoVersions NewConfig demo_world) = None
   \<and> stderr (snd (cleanGoVersions NewConfig demo_world)) = []
   \<and> ReadDir (fs (snd (cleanGoVersions NewConfig demo_world))) (GoDownloadDir NewConfig)
       = Inr [DirEntry ''notes.txt'' False]"
  by code_simp

text \<open>
  C8: when the root does not exist, or lists as empty, clean returns no error and leaves
  the file system, the environment, the log and the list of started commands unchanged;
  it only prints.
\<close>

theorem clean_nothing_to_do:
  assumes "Stat (fs w) (GoDownloadDir config) = Inl ENOENT
           \<or> ReadDir (fs w) (GoDownloadDir config) = Inr []"
  shows "fst (cleanGoVersions config w) = None
       \<and> fs (snd (cleanGoVersions config w)) = fs w
       \<and> HOME (snd (cleanGoVersions config w)) = HOME w
       \<and> stderr (snd (cleanGoVersions config w)) = stderr w
       \<and> procs (snd (cleanGoVersions config w)) = procs w"
  using assms by (auto simp: cleanGoVersions_def Let_def)

theorem clean_nothing_to_do_witness:
  "Stat (fs rootless_world) (GoDownloadDir NewConfig) = Inl ENOENT
   \<and> ReadDir (fs empty_world) (GoDownloadDir NewConfig) = Inr []
   \<and> fst (cleanGoVersions NewConfig rootless_world) = None
   \<and> fs (snd (cleanGoVersions NewConfig rootless_world)) = fs rootless_world
   \<and> fst (cleanGoVersions NewConfig empty_world) = None
   \<and> fs (snd (cleanGoVersions NewConfig empty_world)) = fs empty_world"
proof -
  have h1: "Stat (fs rootless_world) (GoDownloadDir NewConfig) = Inl ENOENT"
    by code_simp
  have h2: "ReadDir (fs empty_world) (GoDownloadDir NewConfig) = Inr []"
    by code_simp
  show ?thesis
    using clean_nothing_to_do [of rootless_world NewConfig, OF disjI1, OF h1]
      clean_nothing_to_do [of empty_world NewConfig, OF disjI2, OF h2] h1 h2
    by simp
qed

theorem clean_removes_directories_witness:
  "Stat (fs demo_world) (GoDownloadDir NewConfig) = Inr demo_store
   \<and> ReadDir (fs demo_world) (GoDownloadDir NewConfig)
       = Inr [DirEntry ''1.22.0'' True, DirEntry ''1.23.0'' True, DirEntry ''notes.txt'' False]
   \<and> fst (cleanGoVersions NewConfig demo_world) = None
   \<and> ReadDir (fs (snd (cleanGoVersions NewConfig demo_world))) (GoDownloadDir NewConfig)
       = Inr [DirEntry ''notes.txt'' False]"
proof -
  let ?es = "[(''1.23.0'', Dir True [(''linux-amd64'', Dir True [(''go'', Dir True [])])]),
        (''notes.txt'', File ''keep''),
        (''1.22.0'', Dir True [(''linux-amd64'', Dir True []), (''darwin-amd64'', Dir True [])])]"
  have h1: "Stat (fs demo_world) (GoDownloadDir NewConfig) = Inr (Dir True ?es)"
    by code_simp
  have h2: "distinct (map fst ?es)"
    by simp
  have h3: "list_all valid_name (map fst ?es)"
    by (simp add: valid_name_def)
  have h4: "list_all (\<lambda>e. residue (snd e) = None) ?es"
    by simp
  have h5: "ReadDir (fs demo_world) (GoDownloadDir NewConfig)
       = Inr [DirEntry ''1.22.0'' True, DirEntry ''1.23.0'' True, DirEntry ''notes.txt'' False]"
    by code_simp
  show ?thesis
    using clean_removes_directories [OF h1 h2 h3 h4 h5] h1 h5
    by (simp add: demo_store_def)
qed

subsection \<open>download\<close>



end
